theory Spec2Isabelle
  imports Main
begin

section \<open>Data model (src/hooks/useTasks.ts)\<close>

text \<open>
  The enum \<^verbatim>\<open>Priority\<close> with its numeric values 1 to 4, and the interface
  \<^verbatim>\<open>Task\<close>. Optional fields (\<^verbatim>\<open>description?\<close>, \<^verbatim>\<open>dueDate?\<close>,
  \<^verbatim>\<open>notificationId?\<close>) are options, \<open>None\<close> standing for \<^verbatim>\<open>undefined\<close>.
  Timestamps are milliseconds since the epoch, integers. The field \<^verbatim>\<open>id\<close> is
  called \<open>id_task\<close> here, \<open>id\<close> being the identity function of HOL.
\<close>

datatype Priority = P1 | P2 | P3 | P4

fun priority_value :: "Priority \<Rightarrow> int" where
  "priority_value P1 = 1"
| "priority_value P2 = 2"
| "priority_value P3 = 3"
| "priority_value P4 = 4"

record Task =
  id_task :: string
  title :: string
  description :: "string option"
  completed :: bool
  createdAt :: int
  dueDate :: "int option"
  priority :: Priority
  projectId :: string
  notificationId :: "string option"

subsection \<open>JavaScript truthiness\<close>

text \<open>
  The source tests optional fields by truthiness (\<^verbatim>\<open>if (dueDate && ...)\<close>,
  \<^verbatim>\<open>if (task.notificationId)\<close>): \<^verbatim>\<open>undefined\<close>, the number 0 and the empty
  string are falsy, every other number and string is truthy.
\<close>

definition truthy_number :: "int option \<Rightarrow> bool" where
  "truthy_number v = (case v of None \<Rightarrow> False | Some n \<Rightarrow> n \<noteq> 0)"

definition truthy_string :: "string option \<Rightarrow> bool" where
  "truthy_string v = (case v of None \<Rightarrow> False | Some s \<Rightarrow> s \<noteq> [])"

text \<open>
  The value of \<^verbatim>\<open>a.dueDate && a.dueDate < now\<close>: the operator \<^verbatim>\<open>&&\<close> returns its
  left operand when that is falsy (\<^verbatim>\<open>undefined\<close> or \<^verbatim>\<open>0\<close>), and the boolean on its
  right otherwise. The comparator compares two such values with \<^verbatim>\<open>!==\<close>, which
  tells \<^verbatim>\<open>undefined\<close>, \<^verbatim>\<open>0\<close> and \<^verbatim>\<open>false\<close> apart.
\<close>

datatype js_value = Undefined | Number int | Boolean bool

fun truthy :: "js_value \<Rightarrow> bool" where
  "truthy Undefined = False"
| "truthy (Number n) = (n \<noteq> 0)"
| "truthy (Boolean b) = b"

definition overdue_value :: "nat \<Rightarrow> Task \<Rightarrow> js_value" where
  "overdue_value now t =
     (case dueDate t of
        None \<Rightarrow> Undefined
      | Some d \<Rightarrow> if d = 0 then Number d else Boolean (d < int now))"

section \<open>Ordering and filtering (filteredAndSortedTasks)\<close>

text \<open>
  The comparator passed to \<^verbatim>\<open>result.sort\<close>, branch by branch. \<open>now\<close> is the
  value of \<^verbatim>\<open>Date.now()\<close>, the milliseconds elapsed since the epoch, read as one
  fixed natural number for a whole evaluation.
\<close>

definition compare_tasks :: "nat \<Rightarrow> Task \<Rightarrow> Task \<Rightarrow> int" where
  "compare_tasks now a b =
     (if completed a \<noteq> completed b then (if completed a then 1 else - 1)
      else if overdue_value now a \<noteq> overdue_value now b
        then (if truthy (overdue_value now a) then - 1 else 1)
      else if priority a \<noteq> priority b
        then priority_value (priority a) - priority_value (priority b)
      else if truthy_number (dueDate a) \<and> truthy_number (dueDate b)
        then (case (dueDate a, dueDate b) of
                (Some x, Some y) \<Rightarrow> x - y
              | _ \<Rightarrow> 0)
      else if truthy_number (dueDate a) then - 1
      else if truthy_number (dueDate b) then 1
      else createdAt b - createdAt a)"

text \<open>
  \<^verbatim>\<open>Array.prototype.sort\<close> belongs to the JavaScript runtime, not to this
  repository. It is modelled as a stable insertion sort: each element in turn moves left
  past its predecessor while \<^verbatim>\<open>comparefn(element, predecessor) < 0\<close>. For a
  consistent comparator every stable sort returns this list; for an inconsistent one
  ECMAScript leaves the order to the engine. \<open>insert_left\<close> works on the sorted
  prefix in reverse, its head being the element just before the one inserted.
\<close>

fun insert_left :: "('a \<Rightarrow> 'a \<Rightarrow> int) \<Rightarrow> 'a \<Rightarrow> 'a list \<Rightarrow> 'a list" where
  "insert_left cmp x [] = [x]"
| "insert_left cmp x (y # ys) =
     (if cmp x y < 0 then y # insert_left cmp x ys else x # y # ys)"

definition array_sort :: "('a \<Rightarrow> 'a \<Rightarrow> int) \<Rightarrow> 'a list \<Rightarrow> 'a list" where
  "array_sort cmp xs = rev (foldl (\<lambda>acc x. insert_left cmp x acc) [] xs)"

definition filteredAndSortedTasks :: "nat \<Rightarrow> string option \<Rightarrow> Task list \<Rightarrow> Task list" where
  "filteredAndSortedTasks now selectedProjectId tasks =
     array_sort (compare_tasks now)
       (if truthy_string selectedProjectId
        then filter (\<lambda>t. Some (projectId t) = selectedProjectId) tasks
        else tasks)"

text \<open>
  The same operation with the engine's sort as a parameter, and a second engine: a stable
  bottom-up merge sort, which starts from runs of one element and merges neighbouring
  runs pass by pass, taking the element of the right run first only when
  \<^verbatim>\<open>comparefn(right, left) < 0\<close>.
\<close>

definition filteredAndSortedTasks_on ::
  "((Task \<Rightarrow> Task \<Rightarrow> int) \<Rightarrow> Task list \<Rightarrow> Task list) \<Rightarrow> nat \<Rightarrow> string option \<Rightarrow>
   Task list \<Rightarrow> Task list" where
  "filteredAndSortedTasks_on engine_sort now selectedProjectId tasks =
     engine_sort (compare_tasks now)
       (if truthy_string selectedProjectId
        then filter (\<lambda>t. Some (projectId t) = selectedProjectId) tasks
        else tasks)"

fun merge_runs :: "('a \<Rightarrow> 'a \<Rightarrow> int) \<Rightarrow> 'a list \<Rightarrow> 'a list \<Rightarrow> 'a list" where
  "merge_runs cmp [] right = right"
| "merge_runs cmp (x # left) [] = x # left"
| "merge_runs cmp (x # left) (y # right) =
     (if cmp y x < 0 then y # merge_runs cmp (x # left) right
      else x # merge_runs cmp left (y # right))"

fun merge_pass :: "('a \<Rightarrow> 'a \<Rightarrow> int) \<Rightarrow> 'a list list \<Rightarrow> 'a list list" where
  "merge_pass cmp (r # s # runs) = merge_runs cmp r s # merge_pass cmp runs"
| "merge_pass cmp runs = runs"

lemma length_merge_pass: "length (merge_pass cmp runs) \<le> length runs"
  by (induction cmp runs rule: merge_pass.induct) auto

function merge_passes :: "('a \<Rightarrow> 'a \<Rightarrow> int) \<Rightarrow> 'a list list \<Rightarrow> 'a list" where
  "merge_passes cmp [] = []"
| "merge_passes cmp [r] = r"
| "merge_passes cmp (r # s # runs) = merge_passes cmp (merge_pass cmp (r # s # runs))"
  by pat_completeness auto
termination
  by (relation "measure (\<lambda>(cmp, runs). length runs)")
     (auto simp: length_merge_pass intro: le_imp_less_Suc)

definition merge_sort :: "('a \<Rightarrow> 'a \<Rightarrow> int) \<Rightarrow> 'a list \<Rightarrow> 'a list" where
  "merge_sort cmp xs = merge_passes cmp (map (\<lambda>x. [x]) xs)"

section \<open>Reminders (src/hooks/useNotifications.ts)\<close>

text \<open>
  What an operation does to the outside world is returned as a list of effects, oldest
  first: a call of \<^verbatim>\<open>Notifications.scheduleNotificationAsync\<close> with its title, body and
  date, a call of \<^verbatim>\<open>Notifications.cancelScheduledNotificationAsync\<close> with its
  identifier, and a call of \<^verbatim>\<open>saveTasks\<close> with the list it writes.

  The operating system's scheduler is the parameter \<open>os\<close>: the identifier it returns
  for a title, a body and a date, or \<open>None\<close> when it throws (the source catches the
  exception and returns \<^verbatim>\<open>null\<close>).
\<close>

datatype effect =
    Schedule string string int
  | Cancel string
  | Save "Task list"

type_synonym scheduler = "string \<Rightarrow> string \<Rightarrow> int \<Rightarrow> string option"

definition scheduleReminder ::
  "nat \<Rightarrow> scheduler \<Rightarrow> string \<Rightarrow> string \<Rightarrow> int \<Rightarrow> string option \<times> effect list" where
  "scheduleReminder now os title' body date =
     (if date \<le> int now then (None, [])
      else (os title' body date, [Schedule title' body date]))"

definition cancelReminder :: "string \<Rightarrow> effect list" where
  "cancelReminder identifier = [Cancel identifier]"

section \<open>Task operations (src/hooks/useTasks.ts)\<close>

text \<open>
  Every operation takes the current list and returns the new list with the effects it
  caused. \<^verbatim>\<open>Date.now()\<close> is read as the one value \<open>now\<close> throughout an operation.
\<close>

fun number_toString :: "nat \<Rightarrow> string" where
  "number_toString n =
     (if n < 10 then [''0123456789'' ! n]
      else number_toString (n div 10) @ [''0123456789'' ! (n mod 10)])"

declare number_toString.simps [simp del]

fun findIndex :: "('a \<Rightarrow> bool) \<Rightarrow> 'a list \<Rightarrow> nat option" where
  "findIndex P [] = None"
| "findIndex P (x # xs) = (if P x then Some 0 else map_option Suc (findIndex P xs))"

definition addTask ::
  "nat \<Rightarrow> scheduler \<Rightarrow> string \<Rightarrow> string option \<Rightarrow> int option \<Rightarrow> Priority option \<Rightarrow>
   string option \<Rightarrow> Task list \<Rightarrow> Task list \<times> effect list" where
  "addTask now os title' description' dueDate' priority' projectId' prevTasks =
     (let (notificationId', effects) =
            (case dueDate' of
               Some d \<Rightarrow>
                 if d \<noteq> 0 \<and> int now < d
                 then (let (ident, es) = scheduleReminder now os title' ''Task is due now!'' d
                       in (if truthy_string ident then ident else None, es))
                 else (None, [])
             | None \<Rightarrow> (None, []));
          newTask = \<lparr> id_task = number_toString now,
                      title = title',
                      description = description',
                      completed = False,
                      createdAt = int now,
                      dueDate = dueDate',
                      priority = (case priority' of None \<Rightarrow> P4 | Some p \<Rightarrow> p),
                      projectId = (case projectId' of None \<Rightarrow> ''inbox'' | Some p \<Rightarrow> p),
                      notificationId = notificationId' \<rparr>;
          updated = newTask # prevTasks
      in (updated, effects @ [Save updated]))"

definition updateTaskWithLogic ::
  "nat \<Rightarrow> scheduler \<Rightarrow> string \<Rightarrow> string \<Rightarrow> string option \<Rightarrow> int option \<Rightarrow> Priority option \<Rightarrow>
   string option \<Rightarrow> Task list \<Rightarrow> Task list \<times> effect list" where
  "updateTaskWithLogic now os ident title' description' dueDate' priority' projectId' tasks =
     (case findIndex (\<lambda>t. id_task t = ident) tasks of
        None \<Rightarrow> (tasks, [])
      | Some taskIndex \<Rightarrow>
          (let task = tasks ! taskIndex;
               (notificationId', effects) =
                 (if dueDate' \<noteq> dueDate task then
                    (let (n1, e1) =
                           (case notificationId task of
                              Some old \<Rightarrow>
                                if old \<noteq> [] then (None, cancelReminder old)
                                else (notificationId task, [])
                            | None \<Rightarrow> (notificationId task, []));
                         (n2, e2) =
                           (case dueDate' of
                              Some d \<Rightarrow>
                                if d \<noteq> 0 \<and> int now < d
                                then (let (newId, es) =
                                            scheduleReminder now os title' ''Task is due now!'' d
                                      in (if truthy_string newId then newId else n1, es))
                                else (n1, [])
                            | None \<Rightarrow> (n1, []))
                     in (n2, e1 @ e2))
                  else if title' \<noteq> title task \<and> truthy_string (notificationId task) then
                    (case (dueDate task, notificationId task) of
                       (Some d, Some old) \<Rightarrow>
                         if d \<noteq> 0 \<and> int now < d
                         then (let (newId, es) =
                                     scheduleReminder now os title' ''Task is due now!'' d
                               in (if truthy_string newId then newId else notificationId task,
                                   cancelReminder old @ es))
                         else (notificationId task, [])
                     | _ \<Rightarrow> (notificationId task, []))
                  else (notificationId task, []));
               updatedTask = task \<lparr> title := title',
                                    description := description',
                                    dueDate := dueDate',
                                    priority := (case priority' of None \<Rightarrow> priority task | Some p \<Rightarrow> p),
                                    projectId := (case projectId' of None \<Rightarrow> projectId task | Some p \<Rightarrow> p),
                                    notificationId := notificationId' \<rparr>;
               newTasks = tasks[taskIndex := updatedTask]
           in (newTasks, effects @ [Save newTasks])))"

definition toggleTask ::
  "nat \<Rightarrow> scheduler \<Rightarrow> string \<Rightarrow> Task list \<Rightarrow> Task list \<times> effect list" where
  "toggleTask now os ident prevTasks =
     (case find (\<lambda>t. id_task t = ident) prevTasks of
        None \<Rightarrow> (prevTasks, [])
      | Some task \<Rightarrow>
          (let completed' = \<not> completed task;
               effects =
                 (if completed' \<and> truthy_string (notificationId task)
                  then (case notificationId task of
                          Some old \<Rightarrow> cancelReminder old
                        | None \<Rightarrow> [])
                  else if \<not> completed' \<and> truthy_number (dueDate task)
                  then (case dueDate task of
                          Some d \<Rightarrow>
                            if int now < d
                            then snd (scheduleReminder now os (title task) ''Task is due now!'' d)
                            else []
                        | None \<Rightarrow> [])
                  else []);
               updated = map (\<lambda>t. if id_task t = ident then t \<lparr> completed := completed' \<rparr> else t)
                           prevTasks
           in (updated, effects @ [Save updated])))"

text \<open>
  \<^verbatim>\<open>deleteTask\<close> opens a confirmation dialog; \<open>confirmed\<close> says whether the user
  pressed Delete. The Cancel button has no handler.
\<close>

definition deleteTask :: "bool \<Rightarrow> string \<Rightarrow> Task list \<Rightarrow> Task list \<times> effect list" where
  "deleteTask confirmed ident prevTasks =
     (if \<not> confirmed then (prevTasks, [])
      else
        (let effects =
               (case find (\<lambda>t. id_task t = ident) prevTasks of
                  Some task \<Rightarrow>
                    (case notificationId task of
                       Some old \<Rightarrow> if old \<noteq> [] then cancelReminder old else []
                     | None \<Rightarrow> [])
                | None \<Rightarrow> []);
             updated = filter (\<lambda>t. id_task t \<noteq> ident) prevTasks
         in (updated, effects @ [Save updated])))"

section \<open>Auxiliary definitions\<close>

text \<open>
  The two leading rules of the comparator as one number: incomplete before completed,
  and within each, tasks whose overdue flag is truthy before the others.
\<close>

definition task_rank :: "nat \<Rightarrow> Task \<Rightarrow> nat" where
  "task_rank now t =
     (if completed t then 2 else 0) + (if truthy (overdue_value now t) then 0 else 1)"

text \<open>Concrete tasks for the examples below.\<close>

definition sample_task ::
  "string \<Rightarrow> bool \<Rightarrow> int option \<Rightarrow> Priority \<Rightarrow> string option \<Rightarrow> Task" where
  "sample_task ident done due prio reminder =
     \<lparr> id_task = ident, title = ''Buy milk'', description = None, completed = done,
       createdAt = 500, dueDate = due, priority = prio, projectId = ''inbox'',
       notificationId = reminder \<rparr>"


section \<open>The sort\<close>

lemmas order_defs = filteredAndSortedTasks_def array_sort_def compare_tasks_def
  overdue_value_def truthy_string_def truthy_number_def sample_task_def

lemma set_insert_left: "set (insert_left cmp x ys) = insert x (set ys)"
  by (induction ys) auto

lemma set_foldl_insert_left:
  "set (foldl (\<lambda>acc x. insert_left cmp x acc) acc xs) = set xs \<union> set acc"
  by (induction xs arbitrary: acc) (auto simp: set_insert_left)

lemma set_array_sort: "set (array_sort cmp xs) = set xs"
  by (simp add: array_sort_def set_foldl_insert_left)

subsection \<open>A comparator that respects a rank sorts by that rank\<close>

lemma insert_left_ranked:
  assumes lt: "\<And>a b. r a < r b \<Longrightarrow> cmp a b < 0"
      and gt: "\<And>a b. r b < r a \<Longrightarrow> 0 < cmp a b"
  shows "sorted_wrt (\<lambda>a b. r b \<le> r a) ys \<Longrightarrow>
         sorted_wrt (\<lambda>a b. (r b::nat) \<le> r a) (insert_left cmp x ys)"
proof (induction ys)
  case Nil
  then show ?case by simp
next
  case (Cons y ys)
  show ?case
  proof (cases "cmp x y < 0")
    case True
    then have "r x \<le> r y" using gt [of y x] by (cases "r y < r x") auto
    with Cons True show ?thesis by (auto simp: set_insert_left)
  next
    case False
    then have "r y \<le> r x" using lt [of x y] by (cases "r x < r y") auto
    with Cons False show ?thesis by fastforce
  qed
qed

lemma foldl_insert_left_ranked:
  assumes lt: "\<And>a b. r a < r b \<Longrightarrow> cmp a b < 0"
      and gt: "\<And>a b. r b < r a \<Longrightarrow> 0 < cmp a b"
  shows "sorted_wrt (\<lambda>a b. r b \<le> r a) acc \<Longrightarrow>
         sorted_wrt (\<lambda>a b. (r b::nat) \<le> r a) (foldl (\<lambda>acc x. insert_left cmp x acc) acc xs)"
proof (induction xs arbitrary: acc)
  case Nil
  then show ?case by simp
next
  case (Cons x xs)
  have "sorted_wrt (\<lambda>a b. r b \<le> r a) (insert_left cmp x acc)"
    using lt gt Cons.prems by (rule insert_left_ranked)
  then show ?case using Cons.IH by simp
qed

lemma array_sort_ranked:
  assumes lt: "\<And>a b. r a < r b \<Longrightarrow> cmp a b < 0"
      and gt: "\<And>a b. r b < r a \<Longrightarrow> 0 < cmp a b"
  shows "sorted_wrt (\<lambda>a b. (r a::nat) \<le> r b) (array_sort cmp (xs::'a list))"
proof -
  have "sorted_wrt (\<lambda>a b. r b \<le> r a) ([]::'a list)"
    by simp
  with lt gt have "sorted_wrt (\<lambda>a b. r b \<le> r a) (foldl (\<lambda>acc x. insert_left cmp x acc) [] xs)"
    by (rule foldl_insert_left_ranked)
  then show ?thesis by (simp add: array_sort_def sorted_wrt_rev)
qed

lemma compare_rank_less: "task_rank now a < task_rank now b \<Longrightarrow> compare_tasks now a b < 0"
  by (auto simp: task_rank_def compare_tasks_def split: if_splits)

lemma compare_rank_greater: "task_rank now b < task_rank now a \<Longrightarrow> 0 < compare_tasks now a b"
  by (auto simp: task_rank_def compare_tasks_def split: if_splits)

lemma order_ranked:
  "sorted_wrt (\<lambda>a b. task_rank now a \<le> task_rank now b) (filteredAndSortedTasks now f ts)"
  unfolding filteredAndSortedTasks_def
  by (rule array_sort_ranked) (auto intro: compare_rank_less compare_rank_greater)

subsection \<open>Sorting a sorted list\<close>

text \<open>
  The comparator never answers "before" in both directions. The sort therefore ends with
  no element asking to move left of its predecessor, and such a list is left as it is.
\<close>

lemma compare_asym: "compare_tasks now a b < 0 \<Longrightarrow> 0 \<le> compare_tasks now b a"
  by (auto simp: compare_tasks_def truthy_number_def overdue_value_def
      split: if_splits option.splits Priority.splits)

lemma insert_left_settled:
  assumes asym: "\<And>a b. cmp a b < 0 \<Longrightarrow> 0 \<le> cmp b a"
  shows "successively (\<lambda>x y. 0 \<le> cmp x y) ys \<Longrightarrow>
         successively (\<lambda>x y. 0 \<le> cmp x y) (insert_left cmp x ys)"
proof (induction ys)
  case Nil
  then show ?case by simp
next
  case (Cons y ys)
  note settled = Cons.prems
  show ?case
  proof (cases "cmp x y < 0")
    case False
    with settled show ?thesis by simp
  next
    case True
    then have yx: "0 \<le> cmp y x" by (rule asym)
    have rest: "successively (\<lambda>x y. 0 \<le> cmp x y) (insert_left cmp x ys)"
      using Cons by (auto simp: successively_Cons)
    show ?thesis
    proof (cases ys)
      case Nil
      with True yx show ?thesis by simp
    next
      case (Cons z zs)
      with True yx rest settled show ?thesis
        by (auto simp: successively_Cons)
    qed
  qed
qed

lemma foldl_insert_left_settled:
  assumes asym: "\<And>a b. cmp a b < 0 \<Longrightarrow> 0 \<le> cmp b a"
  shows "successively (\<lambda>x y. 0 \<le> cmp x y) acc \<Longrightarrow>
         successively (\<lambda>x y. 0 \<le> cmp x y) (foldl (\<lambda>acc x. insert_left cmp x acc) acc xs)"
proof (induction xs arbitrary: acc)
  case Nil
  then show ?case by simp
next
  case (Cons x xs)
  have "successively (\<lambda>x y. 0 \<le> cmp x y) (insert_left cmp x acc)"
    using asym Cons.prems by (rule insert_left_settled)
  then show ?case using Cons.IH by simp
qed

lemma foldl_insert_left_fixed:
  "successively (\<lambda>x y. 0 \<le> cmp x y) (rev xs @ acc) \<Longrightarrow>
   foldl (\<lambda>acc x. insert_left cmp x acc) acc xs = rev xs @ acc"
proof (induction xs arbitrary: acc)
  case Nil
  then show ?case by simp
next
  case (Cons x xs)
  from Cons.prems have s: "successively (\<lambda>x y. 0 \<le> cmp x y) (rev xs @ x # acc)"
    by simp
  then have "successively (\<lambda>x y. 0 \<le> cmp x y) (x # acc)"
    by (simp add: successively_append_iff)
  then have "insert_left cmp x acc = x # acc"
    by (cases acc) auto
  with Cons.IH [OF s] show ?case by simp
qed

lemma array_sort_fixed:
  assumes asym: "\<And>a b. cmp a b < 0 \<Longrightarrow> 0 \<le> cmp b a"
  shows "array_sort cmp (array_sort cmp xs) = array_sort cmp (xs::'a list)"
proof -
  let ?zs = "foldl (\<lambda>acc x. insert_left cmp x acc) [] xs"
  have "successively (\<lambda>x y. 0 \<le> cmp x y) ([]::'a list)"
    by simp
  with asym have "successively (\<lambda>x y. 0 \<le> cmp x y) ?zs"
    by (rule foldl_insert_left_settled)
  then have "successively (\<lambda>x y. 0 \<le> cmp x y) (rev (rev ?zs) @ [])"
    by simp
  then have "foldl (\<lambda>acc x. insert_left cmp x acc) [] (rev ?zs) = rev (rev ?zs) @ []"
    by (rule foldl_insert_left_fixed)
  then show ?thesis by (simp add: array_sort_def)
qed

section \<open>The ordering\<close>

text \<open>
  An undated task and a task due later, of one completion state, are not compared by
  priority at all: their overdue flags are \<^verbatim>\<open>undefined\<close> and \<^verbatim>\<open>false\<close>, which
  \<^verbatim>\<open>!==\<close> tells apart, and the comparator answers 1 whichever comes first. The later
  branch "has date comes before no date" of the comparator is thereby never reached.
\<close>

lemma undated_against_dated:
  assumes "completed a = completed b" and "dueDate a = None"
      and "dueDate b = Some d" and "d \<noteq> 0" and "\<not> d < int now"
  shows "compare_tasks now a b = 1 \<and> compare_tasks now b a = 1"
  using assms by (simp add: compare_tasks_def overdue_value_def)

text \<open>
  C1. Among tasks of one completion state and one overdue status the smaller priority
  value comes first, an undated task and a task due later included. Evaluated on two
  incomplete tasks at time 1000, the first due at 2000 with priority 4, the second
  undated with priority 1: the comparator answers 1 in both directions, and the list
  stays as it is, priority 4 before priority 1.
\<close>

theorem priority_order_undated_dated:
  "compare_tasks 1000 (sample_task ''1'' False (Some 2000) P4 None)
                      (sample_task ''2'' False None P1 None) = 1
   \<and> compare_tasks 1000 (sample_task ''2'' False None P1 None)
                        (sample_task ''1'' False (Some 2000) P4 None) = 1
   \<and> filteredAndSortedTasks 1000 None
       [sample_task ''1'' False (Some 2000) P4 None, sample_task ''2'' False None P1 None]
     = [sample_task ''1'' False (Some 2000) P4 None, sample_task ''2'' False None P1 None]"
  by (simp add: order_defs)

text \<open>
  C2. Of two incomplete tasks in the output, one whose due date is present, not 0 and
  strictly before the current time, the other with no due date strictly before the
  current time, the first stands before the second, whatever their priorities. A due
  date of 0 is falsy: the comparator takes the task for one without a due date.
\<close>

theorem overdue_precedes_not_overdue:
  assumes "i < length (filteredAndSortedTasks now f ts)"
      and "j < length (filteredAndSortedTasks now f ts)"
      and "\<not> completed (filteredAndSortedTasks now f ts ! i)"
      and "\<not> completed (filteredAndSortedTasks now f ts ! j)"
      and "dueDate (filteredAndSortedTasks now f ts ! i) = Some d"
      and "d < int now" and "d \<noteq> 0"
      and "\<forall>e. dueDate (filteredAndSortedTasks now f ts ! j) = Some e \<longrightarrow> \<not> e < int now"
  shows "i < j"
proof (rule ccontr)
  assume "\<not> i < j"
  moreover have "i \<noteq> j" using assms by auto
  ultimately have "j < i" by simp
  with order_ranked have "task_rank now (filteredAndSortedTasks now f ts ! j)
      \<le> task_rank now (filteredAndSortedTasks now f ts ! i)"
    using assms(1) by (rule sorted_wrt_nth_less)
  with assms show False
    by (auto simp: task_rank_def overdue_value_def split: if_splits option.splits)
qed

text \<open>
  The example of C2: at time 1000, A with priority 1 due at 2000 and B with priority 2
  due at 400, both incomplete, come out as B, A.
\<close>

theorem overdue_precedes_not_overdue_witness:
  "filteredAndSortedTasks 1000 None
     [sample_task ''A'' False (Some 2000) P1 None, sample_task ''B'' False (Some 400) P2 None]
   = [sample_task ''B'' False (Some 400) P2 None, sample_task ''A'' False (Some 2000) P1 None]
   \<and> (400::int) < int 1000 \<and> \<not> (2000::int) < int 1000 \<and> (0::nat) < 1"
proof -
  have out: "filteredAndSortedTasks 1000 None
     [sample_task ''A'' False (Some 2000) P1 None, sample_task ''B'' False (Some 400) P2 None]
   = [sample_task ''B'' False (Some 400) P2 None, sample_task ''A'' False (Some 2000) P1 None]"
    by (simp add: order_defs)
  have "(0::nat) < 1"
    by (rule overdue_precedes_not_overdue
          [where now = 1000 and f = None and d = 400 and ts =
            "[sample_task ''A'' False (Some 2000) P1 None, sample_task ''B'' False (Some 400) P2 None]"])
       (simp_all add: out, simp_all add: sample_task_def)
  with out show ?thesis by simp
qed

text \<open>
  C2 as first stated, with overdue meaning a due date strictly before the current time,
  fails for the due date 0: at time 1000 an incomplete undated task stays before an
  incomplete task due at 0.
\<close>

theorem overdue_at_zero_counterexample:
  "filteredAndSortedTasks 1000 None
     [sample_task ''1'' False None P4 None, sample_task ''2'' False (Some 0) P4 None]
   = [sample_task ''1'' False None P4 None, sample_task ''2'' False (Some 0) P4 None]
   \<and> dueDate (sample_task ''2'' False (Some 0) P4 None) = Some 0
   \<and> (0::int) < int 1000
   \<and> dueDate (sample_task ''1'' False None P4 None) = None"
  by (simp add: order_defs)

text \<open>
  With the insertion sort above, ordering an ordered list returns it as it is: the
  comparator never answers "before" in both directions.
\<close>

lemma insertion_order_idempotent:
  "filteredAndSortedTasks now f (filteredAndSortedTasks now f ts) = filteredAndSortedTasks now f ts"
proof -
  have fixed: "array_sort (compare_tasks now) (array_sort (compare_tasks now) xs)
      = array_sort (compare_tasks now) xs" for xs
    by (rule array_sort_fixed) (rule compare_asym)
  show ?thesis
  proof (cases "truthy_string f")
    case False
    then show ?thesis by (simp add: filteredAndSortedTasks_def fixed)
  next
    case True
    let ?p = "\<lambda>t. Some (projectId t) = f"
    have "filter ?p (array_sort (compare_tasks now) (filter ?p ts))
        = array_sort (compare_tasks now) (filter ?p ts)"
      by (rule filter_True) (simp add: set_array_sort)
    with True show ?thesis by (simp add: filteredAndSortedTasks_def fixed)
  qed
qed

lemma filteredAndSortedTasks_on_array_sort:
  "filteredAndSortedTasks_on array_sort now f ts = filteredAndSortedTasks now f ts"
  by (simp add: filteredAndSortedTasks_on_def filteredAndSortedTasks_def)

text \<open>The merge sort orders the example of C2 as the insertion sort does.\<close>

lemma merge_sort_example:
  "filteredAndSortedTasks_on merge_sort 1000 None
     [sample_task ''A'' False (Some 2000) P1 None, sample_task ''B'' False (Some 400) P2 None]
   = [sample_task ''B'' False (Some 400) P2 None, sample_task ''A'' False (Some 2000) P1 None]"
  by (simp add: filteredAndSortedTasks_on_def merge_sort_def order_defs)


text \<open>
  C8. In the output no completed task stands before an incomplete one: for positions
  \<open>i < j\<close>, the task at \<open>i\<close> is not completed while the task at \<open>j\<close> is incomplete.
\<close>

theorem completed_never_precedes_incomplete:
  assumes "i < j" and "j < length (filteredAndSortedTasks now f ts)"
  shows "\<not> (completed (filteredAndSortedTasks now f ts ! i)
           \<and> \<not> completed (filteredAndSortedTasks now f ts ! j))"
proof -
  have "task_rank now (filteredAndSortedTasks now f ts ! i)
      \<le> task_rank now (filteredAndSortedTasks now f ts ! j)"
    using order_ranked assms by (rule sorted_wrt_nth_less)
  then show ?thesis by (auto simp: task_rank_def split: if_splits)
qed

theorem completed_never_precedes_incomplete_witness:
  "filteredAndSortedTasks 1000 None
     [sample_task ''1'' True None P1 None, sample_task ''2'' False None P4 None]
   = [sample_task ''2'' False None P4 None, sample_task ''1'' True None P1 None]
   \<and> \<not> (completed (filteredAndSortedTasks 1000 None
           [sample_task ''1'' True None P1 None, sample_task ''2'' False None P4 None] ! 0)
        \<and> \<not> completed (filteredAndSortedTasks 1000 None
           [sample_task ''1'' True None P1 None, sample_task ''2'' False None P4 None] ! 1))"
proof -
  have len: "1 < length (filteredAndSortedTasks 1000 None
     [sample_task ''1'' True None P1 None, sample_task ''2'' False None P4 None])"
    by (simp add: order_defs)
  have "(0::nat) < 1" by simp
  from completed_never_precedes_incomplete [OF this len] show ?thesis
    by (simp add: order_defs)
qed

section \<open>The task operations\<close>

lemma findIndex_Some: "findIndex P xs = Some k \<Longrightarrow> k < length xs \<and> P (xs ! k)"
proof (induction xs arbitrary: k)
  case Nil
  then show ?case by simp
next
  case (Cons x xs)
  then show ?case by (cases "P x") auto
qed

lemma findIndex_None: "\<forall>x \<in> set xs. \<not> P x \<Longrightarrow> findIndex P xs = None"
  by (induction xs) auto

lemma map_update_same:
  "k < length xs \<Longrightarrow> f u = f (xs ! k) \<Longrightarrow> map f (xs[k := u]) = map f xs"
  by (simp add: map_update list_update_same_conv)

lemma find_distinct:
  "distinct (map f xs) \<Longrightarrow> t \<in> set xs \<Longrightarrow> find (\<lambda>x. f x = f t) xs = Some t"
  by (induction xs) (auto simp: image_iff)

lemma filter_distinct:
  "distinct (map f xs) \<Longrightarrow> t \<in> set xs \<Longrightarrow> filter (\<lambda>x. f x \<noteq> f t) xs = remove1 t xs"
proof (induction xs)
  case Nil
  then show ?case by simp
next
  case (Cons x xs)
  show ?case
  proof (cases "x = t")
    case True
    with Cons.prems have "\<forall>y \<in> set xs. f y \<noteq> f t" by (auto simp: image_iff)
    then have "filter (\<lambda>x. f x \<noteq> f t) xs = xs" by (simp add: filter_id_conv)
    with True show ?thesis by simp
  next
    case False
    with Cons.prems have "t \<in> set xs" and "f x \<noteq> f t" by (auto simp: image_iff)
    with Cons False show ?thesis by simp
  qed
qed

text \<open>
  C3. Toggling a completed task with a stored reminder identifier and a due date still
  in the future back to incomplete schedules no reminder. Evaluated at time 1000 on a
  completed task due at 5000 with the stored identifier r1: the stored identifier stays
  r1, and the effects begin with a call of the scheduler for that task, whose result is
  dropped.
\<close>

theorem toggle_incomplete_schedules:
  "toggleTask 1000 (\<lambda>t b d. Some ''r2'') ''1''
     [sample_task ''1'' True (Some 5000) P4 (Some ''r1'')]
   = ([sample_task ''1'' False (Some 5000) P4 (Some ''r1'')],
      [Schedule ''Buy milk'' ''Task is due now!'' 5000,
       Save [sample_task ''1'' False (Some 5000) P4 (Some ''r1'')]])"
  by (simp add: toggleTask_def scheduleReminder_def Let_def truthy_number_def
      truthy_string_def sample_task_def)

text \<open>
  C4. An update of an existing task whose supplied due date differs from the stored one
  (absent included) first cancels the stored reminder identifier if there is one, then
  calls the scheduler if the new due date is strictly in the future, and saves. The
  task's identifier afterwards is the one the scheduler returned when the new due date
  is in the future and the scheduler returned one; otherwise the task has none
  (\<^verbatim>\<open>undefined\<close>, or the empty string it held before).
\<close>

theorem update_changed_dueDate:
  assumes found: "findIndex (\<lambda>t. id_task t = ident) tasks = Some k"
      and changed: "dueDate' \<noteq> dueDate (tasks ! k)"
  shows "snd (updateTaskWithLogic now os ident title' description' dueDate' priority' projectId' tasks)
         = (case notificationId (tasks ! k) of
              Some old \<Rightarrow> if old \<noteq> [] then [Cancel old] else []
            | None \<Rightarrow> [])
           @ (case dueDate' of
                Some d \<Rightarrow> if int now < d then [Schedule title' ''Task is due now!'' d] else []
              | None \<Rightarrow> [])
           @ [Save (fst (updateTaskWithLogic now os ident title' description' dueDate' priority' projectId' tasks))]
       \<and> (case dueDate' of
            Some d \<Rightarrow>
              if int now < d \<and> truthy_string (os title' ''Task is due now!'' d)
              then notificationId
                     (fst (updateTaskWithLogic now os ident title' description' dueDate' priority' projectId' tasks) ! k)
                   = os title' ''Task is due now!'' d
              else \<not> truthy_string (notificationId
                     (fst (updateTaskWithLogic now os ident title' description' dueDate' priority' projectId' tasks) ! k))
          | None \<Rightarrow>
              \<not> truthy_string (notificationId
                     (fst (updateTaskWithLogic now os ident title' description' dueDate' priority' projectId' tasks) ! k)))"
proof -
  from found have k: "k < length tasks" by (simp add: findIndex_Some)
  show ?thesis
    using found changed k
    by (auto simp: updateTaskWithLogic_def Let_def split_def scheduleReminder_def
        cancelReminder_def truthy_string_def split: option.splits)
qed

text \<open>
  At time 1000, a task due at 2000 with the identifier r1: moving the due date to 3000
  cancels r1, schedules anew and stores r2; moving it to 700 leaves no identifier.
\<close>

theorem update_changed_dueDate_witness:
  "snd (updateTaskWithLogic 1000 (\<lambda>t b d. Some ''r2'') ''1'' ''Buy milk'' None (Some 3000) None None
          [sample_task ''1'' False (Some 2000) P4 (Some ''r1'')])
   = [Cancel ''r1'', Schedule ''Buy milk'' ''Task is due now!'' 3000,
      Save (fst (updateTaskWithLogic 1000 (\<lambda>t b d. Some ''r2'') ''1'' ''Buy milk'' None (Some 3000) None None
          [sample_task ''1'' False (Some 2000) P4 (Some ''r1'')]))]
   \<and> notificationId (fst (updateTaskWithLogic 1000 (\<lambda>t b d. Some ''r2'') ''1'' ''Buy milk'' None (Some 3000) None None
          [sample_task ''1'' False (Some 2000) P4 (Some ''r1'')]) ! 0) = Some ''r2''
   \<and> \<not> truthy_string (notificationId (fst (updateTaskWithLogic 1000 (\<lambda>t b d. Some ''r2'') ''1'' ''Buy milk'' None (Some 700) None None
          [sample_task ''1'' False (Some 2000) P4 (Some ''r1'')]) ! 0))"
proof -
  let ?ts = "[sample_task ''1'' False (Some 2000) P4 (Some ''r1'')]"
  have found: "findIndex (\<lambda>t. id_task t = ''1'') ?ts = Some 0"
    by (simp add: sample_task_def)
  have c1: "Some 3000 \<noteq> dueDate (?ts ! 0)" and c2: "Some 700 \<noteq> dueDate (?ts ! 0)"
    by (simp_all add: sample_task_def)
  have n: "notificationId (sample_task ''1'' False (Some 2000) P4 (Some ''r1'')) = Some ''r1''"
    by (simp add: sample_task_def)
  from update_changed_dueDate [OF found c1, of 1000 "\<lambda>t b d. Some ''r2''" "''Buy milk''" None None None]
       update_changed_dueDate [OF found c2, of 1000 "\<lambda>t b d. Some ''r2''" "''Buy milk''" None None None]
  show ?thesis
    by (simp add: n truthy_string_def)
qed

text \<open>
  C5. The task that \<open>addTask\<close> puts at the head of the list stores the identifier the
  scheduler returns (a non-empty string) when the supplied due date is strictly in the
  future; it has no identifier when the due date is absent or not strictly in the
  future; and \<open>scheduleReminder\<close> returns none, calling nothing, for a date not
  strictly in the future.
\<close>

theorem addTask_reminder:
  "(\<forall>d i. dueDate' = Some d \<and> int now < d \<and> os title' ''Task is due now!'' d = Some i \<and> i \<noteq> []
       \<longrightarrow> notificationId (hd (fst (addTask now os title' description' dueDate' priority' projectId' prevTasks))) = Some i)
   \<and> ((dueDate' = None \<or> (\<exists>d. dueDate' = Some d \<and> d \<le> int now))
       \<longrightarrow> notificationId (hd (fst (addTask now os title' description' dueDate' priority' projectId' prevTasks))) = None)
   \<and> tl (fst (addTask now os title' description' dueDate' priority' projectId' prevTasks)) = prevTasks
   \<and> (date \<le> int now \<longrightarrow> scheduleReminder now os title' body date = (None, []))"
  by (auto simp: addTask_def Let_def split_def scheduleReminder_def truthy_string_def
      split: option.splits)

text \<open>
  Created at time 1000 with a due date one hour later, the task stores r1; created one
  hour after its due date, or without one, it stores nothing.
\<close>

theorem addTask_reminder_witness:
  "notificationId (hd (fst (addTask 1000 (\<lambda>t b d. Some ''r1'') ''Buy milk'' None (Some 3601000) None None []))) = Some ''r1''
   \<and> notificationId (hd (fst (addTask 3601000 (\<lambda>t b d. Some ''r1'') ''Buy milk'' None (Some 1000) None None []))) = None
   \<and> notificationId (hd (fst (addTask 1000 (\<lambda>t b d. Some ''r1'') ''Buy milk'' None None None None []))) = None
   \<and> scheduleReminder 1000 (\<lambda>t b d. Some ''r1'') ''Buy milk'' ''Task is due now!'' 1000 = (None, [])"
  using addTask_reminder [of "Some 3601000" 1000 "\<lambda>t b d. Some ''r1''" "''Buy milk''" None None None "[]" 1000 "''Task is due now!''"]
        addTask_reminder [of "Some 1000" 3601000 "\<lambda>t b d. Some ''r1''" "''Buy milk''" None None None "[]" 1000 "''Task is due now!''"]
        addTask_reminder [of None 1000 "\<lambda>t b d. Some ''r1''" "''Buy milk''" None None None "[]" 1000 "''Task is due now!''"]
  by simp

text \<open>
  C6. Deleting with the identifier of a task in the list, \<open>t\<close> being the first task
  that has it: once confirmed, the reminder of \<open>t\<close> is cancelled if \<open>t\<close> has an
  identifier, every task with that identifier leaves the list, the others keeping their
  order, and the new list is saved; where the identifiers of the list are distinct, the
  new list is the old one without \<open>t\<close>. Declined, the list stays as it is and nothing
  happens.
\<close>

theorem deleteTask_confirmed_or_declined:
  assumes "find (\<lambda>x. id_task x = ident) tasks = Some t"
  shows "deleteTask True ident tasks =
           (filter (\<lambda>x. id_task x \<noteq> ident) tasks,
            (case notificationId t of
               Some old \<Rightarrow> if old \<noteq> [] then [Cancel old] else []
             | None \<Rightarrow> []) @ [Save (filter (\<lambda>x. id_task x \<noteq> ident) tasks)])
       \<and> (distinct (map id_task tasks) \<longrightarrow>
            filter (\<lambda>x. id_task x \<noteq> ident) tasks = remove1 t tasks)
       \<and> deleteTask False ident tasks = (tasks, [])"
proof -
  from assms have t: "t \<in> set tasks" and i: "id_task t = ident"
    by (auto simp: find_Some_iff in_set_conv_nth)
  have "filter (\<lambda>x. id_task x \<noteq> ident) tasks = remove1 t tasks"
    if "distinct (map id_task tasks)"
    using that t filter_distinct [of id_task tasks t] by (simp add: i)
  with assms show ?thesis
    by (simp add: deleteTask_def cancelReminder_def Let_def split: option.splits)
qed

theorem deleteTask_confirmed_or_declined_witness:
  "deleteTask True ''1''
     [sample_task ''1'' False (Some 5000) P4 (Some ''r1''), sample_task ''2'' False None P4 None]
   = ([sample_task ''2'' False None P4 None],
      [Cancel ''r1'', Save [sample_task ''2'' False None P4 None]])
   \<and> deleteTask False ''1''
     [sample_task ''1'' False (Some 5000) P4 (Some ''r1''), sample_task ''2'' False None P4 None]
   = ([sample_task ''1'' False (Some 5000) P4 (Some ''r1''), sample_task ''2'' False None P4 None], [])"
proof -
  let ?t = "sample_task ''1'' False (Some 5000) P4 (Some ''r1'')"
  let ?ts = "[?t, sample_task ''2'' False None P4 None]"
  have found: "find (\<lambda>x. id_task x = ''1'') ?ts = Some ?t"
    by (simp add: sample_task_def)
  have dist: "distinct (map id_task ?ts)" by (simp add: sample_task_def)
  have n: "notificationId ?t = Some ''r1''" by (simp add: sample_task_def)
  from deleteTask_confirmed_or_declined [OF found] dist show ?thesis
    by (simp add: n)
qed

text \<open>
  C6 as first stated, with exactly the one task removed, fails where two tasks share an
  identifier, as two tasks created in the same millisecond do: deleting by that
  identifier removes both and cancels only the reminder of the first.
\<close>

theorem deleteTask_shared_id_counterexample:
  "deleteTask True ''1''
     [sample_task ''1'' False (Some 5000) P4 (Some ''r1''),
      sample_task ''1'' False (Some 6000) P1 (Some ''r2'')]
   = ([], [Cancel ''r1'', Save []])
   \<and> remove1 (sample_task ''1'' False (Some 5000) P4 (Some ''r1''))
       [sample_task ''1'' False (Some 5000) P4 (Some ''r1''),
        sample_task ''1'' False (Some 6000) P1 (Some ''r2'')]
     = [sample_task ''1'' False (Some 6000) P1 (Some ''r2'')]"
  by (simp add: deleteTask_def cancelReminder_def Let_def sample_task_def)

text \<open>
  C9. Update and toggle leave the identifier and the creation timestamp of every task,
  position by position, as they were.
\<close>

theorem update_toggle_keep_id_createdAt:
  "map id_task (fst (updateTaskWithLogic now os ident title' description' dueDate' priority' projectId' tasks))
     = map id_task tasks
   \<and> map createdAt (fst (updateTaskWithLogic now os ident title' description' dueDate' priority' projectId' tasks))
     = map createdAt tasks
   \<and> map id_task (fst (toggleTask now os ident tasks)) = map id_task tasks
   \<and> map createdAt (fst (toggleTask now os ident tasks)) = map createdAt tasks"
proof -
  have upd: "map g (fst (updateTaskWithLogic now os ident title' description' dueDate' priority' projectId' tasks))
     = map g tasks"
    if g: "\<And>t a b c d e n. g (t\<lparr>title := a, description := b, dueDate := c, priority := d,
            projectId := e, notificationId := n\<rparr>) = g t" for g :: "Task \<Rightarrow> 'b"
  proof (cases "findIndex (\<lambda>t. id_task t = ident) tasks")
    case None
    then show ?thesis by (simp add: updateTaskWithLogic_def)
  next
    case (Some k)
    then have "k < length tasks" by (simp add: findIndex_Some)
    then show ?thesis using Some
      by (simp add: updateTaskWithLogic_def Let_def split_def map_update_same g)
  qed
  have tog: "map g (fst (toggleTask now os ident tasks)) = map g tasks"
    if g: "\<And>t c. g (t\<lparr>completed := c\<rparr>) = g t" for g :: "Task \<Rightarrow> 'b"
    by (cases "find (\<lambda>t. id_task t = ident) tasks")
       (simp_all add: toggleTask_def Let_def g cong: map_cong)
  show ?thesis
    using upd [of id_task] upd [of createdAt] tog [of id_task] tog [of createdAt] by simp
qed

text \<open>
  C10. With an identifier that no task of the list has, update, toggle and confirmed
  delete return the list as it was.
\<close>

theorem missing_id_noop:
  assumes "ident \<notin> id_task ` set tasks"
  shows "fst (updateTaskWithLogic now os ident title' description' dueDate' priority' projectId' tasks) = tasks
       \<and> fst (toggleTask now os ident tasks) = tasks
       \<and> fst (deleteTask True ident tasks) = tasks"
proof -
  from assms have none: "\<forall>t \<in> set tasks. \<not> id_task t = ident" by auto
  then have "findIndex (\<lambda>t. id_task t = ident) tasks = None" by (rule findIndex_None)
  moreover from none have "find (\<lambda>t. id_task t = ident) tasks = None"
    by (simp add: find_None_iff)
  moreover from none have "filter (\<lambda>t. id_task t \<noteq> ident) tasks = tasks"
    by (simp add: filter_id_conv)
  ultimately show ?thesis
    by (simp add: updateTaskWithLogic_def toggleTask_def deleteTask_def)
qed

theorem missing_id_noop_witness:
  "''9'' \<notin> id_task ` set [sample_task ''1'' False None P4 None]
   \<and> fst (updateTaskWithLogic 1000 (\<lambda>t b d. None) ''9'' ''Call'' None None None None
            [sample_task ''1'' False None P4 None]) = [sample_task ''1'' False None P4 None]
   \<and> fst (toggleTask 1000 (\<lambda>t b d. None) ''9'' [sample_task ''1'' False None P4 None])
       = [sample_task ''1'' False None P4 None]
   \<and> fst (deleteTask True ''9'' [sample_task ''1'' False None P4 None])
       = [sample_task ''1'' False None P4 None]"
proof -
  have h: "''9'' \<notin> id_task ` set [sample_task ''1'' False None P4 None]"
    by (simp add: sample_task_def)
  from missing_id_noop [OF h] h show ?thesis by simp
qed

end
